theory Spec2Isabelle
  imports Main
begin

section \<open>Python's float: IEEE 754 binary64 with round-to-nearest-even\<close>

text \<open>
  \<open>linear_stats.py\<close> computes with Python numbers: \<open>int\<close> (unbounded) and \<open>float\<close>
  (an IEEE 754 binary64 value). A finite double is \<open>Fin s m e\<close>, standing for
  \<open>(-1)^s * m * 2^e\<close>; the doubles are the values with \<open>0 \<le> m < 2^53\<close>,
  \<open>-1074 \<le> e \<le> 971\<close> and \<open>2^52 \<le> m\<close> unless \<open>e = -1074\<close> (predicate \<open>valid_double\<close>),
  which makes the representation of every double unique. All NaNs are one value.
\<close>

datatype double = Fin bool int int | Inf bool | NaN

definition valid_double :: "double \<Rightarrow> bool" where
  "valid_double d =
     (case d of
        Fin s m e \<Rightarrow> 0 \<le> m \<and> m < 2 ^ 53 \<and> - 1074 \<le> e \<and> e \<le> 971 \<and> (2 ^ 52 \<le> m \<or> e = - 1074)
      | _ \<Rightarrow> True)"

function bitlen :: "int \<Rightarrow> int" where
  "bitlen n = (if n \<le> 0 then 0 else 1 + bitlen (n div 2))"
  by pat_completeness auto
termination
  by (relation "measure nat") auto

declare bitlen.simps [simp del]

definition pow2 :: "int \<Rightarrow> int" where
  "pow2 k = 2 ^ nat k"

text \<open>
  \<open>rnd s p q\<close> is the double nearest to \<open>(-1)^s * p / q\<close> (for \<open>0 \<le> p\<close>, \<open>0 < q\<close>), ties to
  the even mantissa, overflowing to infinity: the rounding every IEEE operation applies
  to its exact result.
\<close>

definition rnd :: "bool \<Rightarrow> int \<Rightarrow> int \<Rightarrow> double" where
  "rnd s p q =
     (if p = 0 then Fin s 0 (- 1074)
      else
        let e0 = max (bitlen p - bitlen q - 53) (- 1074);
            e = (if 2 ^ 53 \<le> (p * pow2 (- e0)) div (q * pow2 e0) then e0 + 1 else e0);
            num = p * pow2 (- e);
            den = q * pow2 e;
            m = num div den;
            r = num mod den;
            m' = (if den < 2 * r \<or> (2 * r = den \<and> odd m) then m + 1 else m);
            e' = (if m' = 2 ^ 53 then e + 1 else e);
            m'' = (if m' = 2 ^ 53 then 2 ^ 52 else m')
        in if 971 < e' then Inf s else Fin s m'' e')"

definition fneg :: "double \<Rightarrow> double" where
  "fneg d = (case d of Fin s m e \<Rightarrow> Fin (\<not> s) m e | Inf s \<Rightarrow> Inf (\<not> s) | NaN \<Rightarrow> NaN)"

fun fadd :: "double \<Rightarrow> double \<Rightarrow> double" where
  "fadd NaN _ = NaN"
| "fadd _ NaN = NaN"
| "fadd (Inf s) (Inf t) = (if s = t then Inf s else NaN)"
| "fadd (Inf s) (Fin _ _ _) = Inf s"
| "fadd (Fin _ _ _) (Inf t) = Inf t"
| "fadd (Fin s m e) (Fin t k f) =
     (if m = 0 \<and> k = 0 then Fin (s \<and> t) 0 (- 1074)
      else if m = 0 then Fin t k f
      else if k = 0 then Fin s m e
      else
        let g = min e f;
            v = (if s then - m else m) * pow2 (e - g) + (if t then - k else k) * pow2 (f - g)
        in if v = 0 then Fin False 0 (- 1074)
           else rnd (v < 0) (\<bar>v\<bar> * pow2 g) (pow2 (- g)))"

definition fsub :: "double \<Rightarrow> double \<Rightarrow> double" where
  "fsub a b = fadd a (fneg b)"

fun fmul :: "double \<Rightarrow> double \<Rightarrow> double" where
  "fmul NaN _ = NaN"
| "fmul _ NaN = NaN"
| "fmul (Inf s) (Inf t) = Inf (s \<noteq> t)"
| "fmul (Inf s) (Fin t k f) = (if k = 0 then NaN else Inf (s \<noteq> t))"
| "fmul (Fin s m e) (Inf t) = (if m = 0 then NaN else Inf (s \<noteq> t))"
| "fmul (Fin s m e) (Fin t k f) =
     rnd (s \<noteq> t) (m * k * pow2 (e + f)) (pow2 (- (e + f)))"

fun fdiv :: "double \<Rightarrow> double \<Rightarrow> double" where
  "fdiv NaN _ = NaN"
| "fdiv _ NaN = NaN"
| "fdiv (Inf s) (Inf t) = NaN"
| "fdiv (Inf s) (Fin t k f) = Inf (s \<noteq> t)"
| "fdiv (Fin s m e) (Inf t) = Fin (s \<noteq> t) 0 (- 1074)"
| "fdiv (Fin s m e) (Fin t k f) =
     (if k = 0 then (if m = 0 then NaN else Inf (s \<noteq> t))
      else rnd (s \<noteq> t) (m * pow2 (e - f)) (k * pow2 (f - e)))"

function isqrt :: "int \<Rightarrow> int" where
  "isqrt n =
     (if n \<le> 0 then 0
      else let r = 2 * isqrt (n div 4) in if (r + 1) * (r + 1) \<le> n then r + 1 else r)"
  by pat_completeness auto
termination
  by (relation "measure nat") auto

declare isqrt.simps [simp del]

text \<open>
  The correctly rounded square root. The mantissa is scaled by \<open>2^128\<close> so that the
  integer root \<open>r\<close> has more than 64 bits; when the root is not exact it lies strictly
  between \<open>r\<close> and \<open>r + 1\<close>, where no double and no midpoint of two doubles lies, so
  \<open>r + 1/2\<close> rounds as the root does.
\<close>

definition fsqrt :: "double \<Rightarrow> double" where
  "fsqrt d =
     (case d of
        NaN \<Rightarrow> NaN
      | Inf s \<Rightarrow> (if s then NaN else Inf False)
      | Fin s m e \<Rightarrow>
          if m = 0 then Fin s 0 (- 1074)
          else if s then NaN
          else
            let m2 = (if even e then m else 2 * m);
                e2 = (if even e then e else e - 1);
                M = m2 * 2 ^ 128;
                r = isqrt M;
                h = e2 div 2 - 64
            in if r * r = M then rnd False (r * pow2 h) (pow2 (- h))
               else rnd False ((2 * r + 1) * pow2 h) (2 * pow2 (- h)))"

definition is_zero :: "double \<Rightarrow> bool" where
  "is_zero d = (case d of Fin s m e \<Rightarrow> m = 0 | _ \<Rightarrow> False)"

definition is_negative :: "double \<Rightarrow> bool" where
  "is_negative d = (case d of Fin s m e \<Rightarrow> s \<and> m \<noteq> 0 | Inf s \<Rightarrow> s | NaN \<Rightarrow> False)"

section \<open>Python numbers and the exceptions of their operations\<close>

datatype pyval = PInt int | PFloat double

datatype pyerr =
    ValueError string
  | OverflowError string
  | ZeroDivisionError string
  | OSError string
  | IndexError string

definition bindE :: "'e + 'a \<Rightarrow> ('a \<Rightarrow> 'e + 'b) \<Rightarrow> 'e + 'b" where
  "bindE r f = (case r of Inl e \<Rightarrow> Inl e | Inr v \<Rightarrow> f v)"

text \<open>\<open>float(i)\<close> for an int: correctly rounded, OverflowError beyond the double range.\<close>

definition float_of_int :: "int \<Rightarrow> pyerr + double" where
  "float_of_int i =
     (case rnd (i < 0) \<bar>i\<bar> 1 of
        Inf _ \<Rightarrow> Inl (OverflowError ''int too large to convert to float'')
      | d \<Rightarrow> Inr d)"

definition to_float :: "pyval \<Rightarrow> pyerr + double" where
  "to_float v = (case v of PInt i \<Rightarrow> float_of_int i | PFloat d \<Rightarrow> Inr d)"

text \<open>
  \<open>a + b\<close>, \<open>a - b\<close>, \<open>a * b\<close>: exact on two ints; otherwise both operands become floats
  and the IEEE operation applies (overflow gives infinity, not an exception).
\<close>

definition py_add :: "pyval \<Rightarrow> pyval \<Rightarrow> pyerr + pyval" where
  "py_add a b =
     (case (a, b) of
        (PInt i, PInt j) \<Rightarrow> Inr (PInt (i + j))
      | _ \<Rightarrow> bindE (to_float a) (\<lambda>x. bindE (to_float b) (\<lambda>y. Inr (PFloat (fadd x y)))))"

definition py_sub :: "pyval \<Rightarrow> pyval \<Rightarrow> pyerr + pyval" where
  "py_sub a b =
     (case (a, b) of
        (PInt i, PInt j) \<Rightarrow> Inr (PInt (i - j))
      | _ \<Rightarrow> bindE (to_float a) (\<lambda>x. bindE (to_float b) (\<lambda>y. Inr (PFloat (fsub x y)))))"

definition py_mul :: "pyval \<Rightarrow> pyval \<Rightarrow> pyerr + pyval" where
  "py_mul a b =
     (case (a, b) of
        (PInt i, PInt j) \<Rightarrow> Inr (PInt (i * j))
      | _ \<Rightarrow> bindE (to_float a) (\<lambda>x. bindE (to_float b) (\<lambda>y. Inr (PFloat (fmul x y)))))"

text \<open>
  \<open>a / b\<close> is always a float. On two ints the exact quotient is rounded once; a zero
  divisor raises ZeroDivisionError in every case.
\<close>

definition py_truediv :: "pyval \<Rightarrow> pyval \<Rightarrow> pyerr + pyval" where
  "py_truediv a b =
     (case (a, b) of
        (PInt i, PInt j) \<Rightarrow>
          if j = 0 then Inl (ZeroDivisionError ''division by zero'')
          else (case rnd ((i < 0) \<noteq> (j < 0)) \<bar>i\<bar> \<bar>j\<bar> of
                  Inf _ \<Rightarrow> Inl (OverflowError ''integer division result too large for a float'')
                | d \<Rightarrow> Inr (PFloat d))
      | _ \<Rightarrow>
          bindE (to_float a) (\<lambda>x. bindE (to_float b) (\<lambda>y.
            if is_zero y then Inl (ZeroDivisionError ''float division by zero'')
            else Inr (PFloat (fdiv x y)))))"

text \<open>
  \<open>a ** 2\<close>: exact on an int; on a float the square, with OverflowError when a finite
  operand gives an infinite result.
\<close>

definition py_sq :: "pyval \<Rightarrow> pyerr + pyval" where
  "py_sq a =
     (case a of
        PInt i \<Rightarrow> Inr (PInt (i * i))
      | PFloat NaN \<Rightarrow> Inr (PFloat NaN)
      | PFloat (Inf s) \<Rightarrow> Inr (PFloat (Inf False))
      | PFloat (Fin s m e) \<Rightarrow>
          (case fmul (Fin s m e) (Fin s m e) of
             Inf _ \<Rightarrow> Inl (OverflowError ''(34, 'Numerical result out of range')'')
           | d \<Rightarrow> Inr (PFloat d)))"

text \<open>\<open>a == 0\<close>.\<close>

definition py_eq0 :: "pyval \<Rightarrow> bool" where
  "py_eq0 a = (case a of PInt i \<Rightarrow> i = 0 | PFloat d \<Rightarrow> is_zero d)"

text \<open>\<open>math.sqrt(a)\<close>: ValueError on a negative argument.\<close>

definition math_sqrt :: "pyval \<Rightarrow> pyerr + pyval" where
  "math_sqrt a =
     bindE (to_float a) (\<lambda>x.
       if is_negative x then Inl (ValueError ''math domain error'')
       else Inr (PFloat (fsqrt x)))"

text \<open>
  \<open>sum(f(a) for a in as)\<close>: the accumulator starts at the int \<open>0\<close>; each item is computed
  when the loop reaches it and added on the right, so the first exception in that order
  is the one raised.
\<close>

fun sum_gen :: "('a \<Rightarrow> pyerr + pyval) \<Rightarrow> pyval \<Rightarrow> 'a list \<Rightarrow> pyerr + pyval" where
  "sum_gen f acc [] = Inr acc"
| "sum_gen f acc (a # as) =
     bindE (f a) (\<lambda>v. bindE (py_add acc v) (\<lambda>acc'. sum_gen f acc' as))"

definition py_sum :: "pyval list \<Rightarrow> pyerr + pyval" where
  "py_sum xs = sum_gen Inr (PInt 0) xs"

section \<open>Text: stripping, float literals, fixed-point formatting\<close>

text \<open>
  A \<open>char\<close> is a code point below 256. \<open>str.strip()\<close> removes the white space of
  \<open>str.isspace\<close> from both ends: in that range the code points 9 to 13, 28 to 32, 133
  and 160.
\<close>

definition is_space :: "char \<Rightarrow> bool" where
  "is_space c =
     (c \<in> set [CHR 0x09, CHR 0x0A, CHR 0x0B, CHR 0x0C, CHR 0x0D, CHR 0x1C, CHR 0x1D,
                CHR 0x1E, CHR 0x1F, CHR 0x20, CHR 0x85, CHR 0xA0])"

definition strip :: "string \<Rightarrow> string" where
  "strip s = rev (dropWhile is_space (rev (dropWhile is_space s)))"

definition is_digit :: "char \<Rightarrow> bool" where
  "is_digit c = (c \<in> set ''0123456789'')"

definition digit_val :: "char \<Rightarrow> int" where
  "digit_val c = (case map_of (zip ''0123456789'' [0, 1, 2, 3, 4, 5, 6, 7, 8, 9]) c of
                    Some d \<Rightarrow> d | None \<Rightarrow> 0)"

definition digits_val :: "string \<Rightarrow> int" where
  "digits_val ds = foldl (\<lambda>a c. 10 * a + digit_val c) 0 ds"

definition lower :: "char \<Rightarrow> char" where
  "lower c = (case map_of (zip ''ABCDEFGHIJKLMNOPQRSTUVWXYZ'' ''abcdefghijklmnopqrstuvwxyz'') c of
                Some d \<Rightarrow> d | None \<Rightarrow> c)"

text \<open>
  An underscore in a numeric literal must stand between two digits; the literal is read
  with the underscores removed.
\<close>

fun strip_underscores :: "char option \<Rightarrow> string \<Rightarrow> string option" where
  "strip_underscores prev [] = (if prev = Some CHR ''_'' then None else Some [])"
| "strip_underscores prev (c # cs) =
     (if c = CHR ''_'' then
        (case prev of
           Some p \<Rightarrow> if is_digit p then strip_underscores (Some c) cs else None
         | None \<Rightarrow> None)
      else if prev = Some CHR ''_'' \<and> \<not> is_digit c then None
      else map_option ((#) c) (strip_underscores (Some c) cs))"

definition parse_exponent :: "string \<Rightarrow> int option" where
  "parse_exponent s =
     (case s of
        [] \<Rightarrow> Some 0
      | c # cs \<Rightarrow>
          if c = CHR ''e'' \<or> c = CHR ''E'' then
            (let neg = (case cs of d # _ \<Rightarrow> d = CHR ''-'' | [] \<Rightarrow> False);
                 ds = (case cs of
                         d # ds' \<Rightarrow> if d = CHR ''-'' \<or> d = CHR ''+'' then ds' else cs
                       | [] \<Rightarrow> [])
             in if ds \<noteq> [] \<and> list_all is_digit ds
                then Some (if neg then - digits_val ds else digits_val ds)
                else None)
          else None)"

text \<open>
  \<open>float(s)\<close> on a stripped string: an optional sign, then \<open>inf\<close>, \<open>infinity\<close> or
  \<open>nan\<close> in any case, or a decimal literal (digits, an optional point, digits, at least
  one digit in all, an optional exponent), whose exact value is rounded once. \<open>None\<close>
  stands for the ValueError of a string that is no literal.
\<close>

definition py_float :: "string \<Rightarrow> double option" where
  "py_float s =
     (let neg = (case s of c # _ \<Rightarrow> c = CHR ''-'' | [] \<Rightarrow> False);
          body = (case s of
                    c # cs \<Rightarrow> if c = CHR ''-'' \<or> c = CHR ''+'' then cs else s
                  | [] \<Rightarrow> []);
          low = map lower body
      in if low = ''inf'' \<or> low = ''infinity'' then Some (Inf neg)
         else if low = ''nan'' then Some NaN
         else
           (case strip_underscores None body of
              None \<Rightarrow> None
            | Some t \<Rightarrow>
                (let ip = takeWhile is_digit t;
                     r1 = dropWhile is_digit t;
                     point = (case r1 of c # _ \<Rightarrow> c = CHR ''.'' | [] \<Rightarrow> False);
                     fp = (if point then takeWhile is_digit (tl r1) else []);
                     r2 = (if point then dropWhile is_digit (tl r1) else r1)
                 in if ip = [] \<and> fp = [] then None
                    else
                      (case parse_exponent r2 of
                         None \<Rightarrow> None
                       | Some ex \<Rightarrow>
                           (let d = digits_val (ip @ fp);
                                x = ex - int (length fp)
                            in Some (if 0 \<le> x then rnd neg (d * 10 ^ nat x) 1
                                     else rnd neg d (10 ^ nat (- x))))))))"

function digits :: "int \<Rightarrow> string" where
  "digits n =
     (if n < 10 then [''0123456789'' ! nat n]
      else digits (n div 10) @ [''0123456789'' ! nat (n mod 10)])"
  by pat_completeness auto
termination
  by (relation "measure nat") auto

declare digits.simps [simp del]

text \<open>
  \<open>format(d, '.<prec>f')\<close>: the exact value of the double rounded to \<open>prec\<close> decimals,
  ties to even, in fixed-point notation; the sign of a negative zero is kept.
\<close>

definition fmt_f :: "nat \<Rightarrow> double \<Rightarrow> string" where
  "fmt_f prec d =
     (case d of
        NaN \<Rightarrow> ''nan''
      | Inf s \<Rightarrow> (if s then ''-inf'' else ''inf'')
      | Fin s m e \<Rightarrow>
          (let sc = 10 ^ prec;
               num = m * sc * pow2 e;
               den = pow2 (- e);
               q = num div den;
               r = num mod den;
               N = (if den < 2 * r \<or> (2 * r = den \<and> odd q) then q + 1 else q);
               frac = digits (N mod sc)
           in (if s then ''-'' else []) @ digits (N div sc) @
              (if prec = 0 then []
               else ''.'' @ replicate (prec - length frac) CHR ''0'' @ frac)))"

definition py_fmt :: "nat \<Rightarrow> pyval \<Rightarrow> pyerr + string" where
  "py_fmt prec v = bindE (to_float v) (\<lambda>d. Inr (fmt_f prec d))"

section \<open>The program: parse_file, linear_regression, pearson_correlation, main\<close>

definition err_class :: "pyerr \<Rightarrow> string" where
  "err_class e =
     (case e of
        ValueError _ \<Rightarrow> ''ValueError''
      | OverflowError _ \<Rightarrow> ''OverflowError''
      | ZeroDivisionError _ \<Rightarrow> ''ZeroDivisionError''
      | OSError _ \<Rightarrow> ''OSError''
      | IndexError _ \<Rightarrow> ''IndexError'')"

definition err_msg :: "pyerr \<Rightarrow> string" where
  "err_msg e =
     (case e of
        ValueError m \<Rightarrow> m
      | OverflowError m \<Rightarrow> m
      | ZeroDivisionError m \<Rightarrow> m
      | OSError m \<Rightarrow> m
      | IndexError m \<Rightarrow> m)"

text \<open>
  The loop of \<open>parse_file\<close> over \<open>enumerate(f, start=1)\<close>: \<open>line_no\<close> counts every line
  of the file, blank or not; a blank line is skipped by \<open>continue\<close>; the first line that
  \<open>float\<close> rejects raises ValueError with the line number and the stripped text.
\<close>

fun parse_lines :: "int \<Rightarrow> string list \<Rightarrow> pyval list \<Rightarrow> pyerr + pyval list" where
  "parse_lines line_no [] values = Inr values"
| "parse_lines line_no (line # rest) values =
     (let stripped = strip line
      in if stripped = [] then parse_lines (line_no + 1) rest values
         else
           (case py_float stripped of
              Some v \<Rightarrow> parse_lines (line_no + 1) rest (values @ [PFloat v])
            | None \<Rightarrow>
                Inl (ValueError (''Unable to parse line '' @ digits line_no @ '': '' @
                                 [CHR 0x27] @ stripped @ [CHR 0x27]))))"

text \<open>
  The file system is a function from a path to the lines of the file (each with its
  line end), or to the exception \<open>open\<close> raises.
\<close>

type_synonym files = "string \<Rightarrow> pyerr + string list"

definition parse_file :: "string \<Rightarrow> files \<Rightarrow> pyerr + pyval list" where
  "parse_file path fs = bindE (fs path) (\<lambda>lines. parse_lines 1 lines [])"

definition linear_regression :: "pyval list \<Rightarrow> pyval list \<Rightarrow> pyerr + (pyval \<times> pyval)" where
  "linear_regression x y =
     (let n = PInt (int (length x)) in
      bindE (py_sum x) (\<lambda>sum_x.
      bindE (py_sum y) (\<lambda>sum_y.
      bindE (sum_gen (\<lambda>(x_i, y_i). py_mul x_i y_i) (PInt 0) (zip x y)) (\<lambda>sum_xy.
      bindE (sum_gen py_sq (PInt 0) x) (\<lambda>sum_x2.
      bindE (py_mul n sum_x2) (\<lambda>t1.
      bindE (py_sq sum_x) (\<lambda>t2.
      bindE (py_sub t1 t2) (\<lambda>denominator.
      if py_eq0 denominator
      then Inl (ValueError ''Cannot compute linear regression: denominator is zero'')
      else
        bindE (py_mul n sum_xy) (\<lambda>t3.
        bindE (py_mul sum_x sum_y) (\<lambda>t4.
        bindE (py_sub t3 t4) (\<lambda>t5.
        bindE (py_truediv t5 denominator) (\<lambda>m.
        bindE (py_mul m sum_x) (\<lambda>t6.
        bindE (py_sub sum_y t6) (\<lambda>t7.
        bindE (py_truediv t7 n) (\<lambda>b.
        Inr (m, b))))))))))))))))"

definition pearson_correlation :: "pyval list \<Rightarrow> pyval list \<Rightarrow> pyerr + pyval" where
  "pearson_correlation x y =
     (let n = PInt (int (length x)) in
      bindE (py_sum x) (\<lambda>sum_x.
      bindE (py_sum y) (\<lambda>sum_y.
      bindE (sum_gen (\<lambda>(x_i, y_i). py_mul x_i y_i) (PInt 0) (zip x y)) (\<lambda>sum_xy.
      bindE (sum_gen py_sq (PInt 0) x) (\<lambda>sum_x2.
      bindE (sum_gen py_sq (PInt 0) y) (\<lambda>sum_y2.
      bindE (py_mul n sum_xy) (\<lambda>t1.
      bindE (py_mul sum_x sum_y) (\<lambda>t2.
      bindE (py_sub t1 t2) (\<lambda>numerator.
      bindE (py_mul n sum_x2) (\<lambda>t3.
      bindE (py_sq sum_x) (\<lambda>t4.
      bindE (py_sub t3 t4) (\<lambda>t5.
      bindE (py_mul n sum_y2) (\<lambda>t6.
      bindE (py_sq sum_y) (\<lambda>t7.
      bindE (py_sub t6 t7) (\<lambda>t8.
      bindE (py_mul t5 t8) (\<lambda>t9.
      bindE (math_sqrt t9) (\<lambda>denominator.
      if py_eq0 denominator
      then Inl (ValueError ''Cannot compute Pearson correlation: denominator is zero'')
      else py_truediv numerator denominator)))))))))))))))))"

record streams =
  stdout :: "string list"
  stderr :: "string list"

definition no_output :: streams where
  "no_output = \<lparr>stdout = [], stderr = []\<rparr>"

definition print_err :: "string \<Rightarrow> streams \<Rightarrow> streams" where
  "print_err s out = out\<lparr>stderr := stderr out @ [s]\<rparr>"

definition print_out :: "string \<Rightarrow> streams \<Rightarrow> streams" where
  "print_out s out = out\<lparr>stdout := stdout out @ [s]\<rparr>"

text \<open>\<open>list(range(len(y_values)))\<close>: the zero-based indices, as ints.\<close>

definition indices :: "pyval list \<Rightarrow> pyval list" where
  "indices y_values = map (\<lambda>i. PInt (int i)) [0..<length y_values]"

text \<open>
  \<open>main\<close> returns what it printed and either the int it returns or the exception that
  leaves it: \<open>except Exception\<close> around \<open>parse_file\<close> catches everything,
  \<open>except ValueError\<close> around the two computations catches ValueError only.
\<close>

definition main :: "string list \<Rightarrow> files \<Rightarrow> streams \<times> (pyerr + int)" where
  "main argv fs =
     (if length argv \<noteq> 2 then
        (case argv of
           [] \<Rightarrow> (no_output, Inl (IndexError ''list index out of range''))
         | a0 # _ \<Rightarrow> (print_err (''Usage: '' @ a0 @ '' <data_file>'') no_output, Inr 1))
      else
        let data_file = argv ! 1 in
        (case parse_file data_file fs of
           Inl e \<Rightarrow> (print_err (''Error reading file: '' @ err_msg e) no_output, Inr 1)
         | Inr y_values \<Rightarrow>
             if y_values = [] then
               (print_err ''Error: No data found in file'' no_output, Inr 1)
             else
               let x_values = indices y_values in
               (case bindE (linear_regression x_values y_values) (\<lambda>(m, b).
                     bindE (pearson_correlation x_values y_values) (\<lambda>r. Inr (m, b, r))) of
                  Inl (ValueError msg) \<Rightarrow>
                    (print_err (''Error computing statistics: '' @ msg) no_output, Inr 1)
                | Inl e \<Rightarrow> (no_output, Inl e)
                | Inr (m, b, r) \<Rightarrow>
                    (case bindE (py_fmt 6 m) (\<lambda>ms. bindE (py_fmt 6 b) (\<lambda>bs. Inr (ms, bs))) of
                       Inl e \<Rightarrow> (no_output, Inl e)
                     | Inr (ms, bs) \<Rightarrow>
                         let out1 = print_out (''Linear Regression Line: y = '' @ ms @
                                               ''x + '' @ bs) no_output in
                         (case py_fmt 10 r of
                            Inl e \<Rightarrow> (out1, Inl e)
                          | Inr rs \<Rightarrow>
                              (print_out (''Pearson Correlation Coefficient: '' @ rs) out1,
                               Inr 0))))))"

text \<open>
  \<open>sys.exit(main(sys.argv))\<close>: the process exits with the int \<open>main\<close> returns; an
  exception that leaves \<open>main\<close> is reported by the interpreter on the error stream and
  the process exits with status 1.
\<close>

definition traceback :: "pyerr \<Rightarrow> string" where
  "traceback e = ''Traceback (most recent call last): '' @ err_class e @ '': '' @ err_msg e"

definition program :: "string list \<Rightarrow> files \<Rightarrow> streams \<times> int" where
  "program argv fs =
     (case main argv fs of
        (out, Inr code) \<Rightarrow> (out, code)
      | (out, Inl e) \<Rightarrow> (print_err (traceback e) out, 1))"

section \<open>Vocabulary of the properties\<close>

text \<open>
  A line is blank when nothing is left after stripping, numeric when \<open>float\<close> accepts
  what is left. The observations of a file are the values of its non-blank lines, in
  file order.
\<close>

definition nonblank :: "string \<Rightarrow> bool" where
  "nonblank l = (strip l \<noteq> [])"

definition numeric :: "string \<Rightarrow> bool" where
  "numeric l = (py_float (strip l) \<noteq> None)"

definition observations :: "string list \<Rightarrow> pyval list" where
  "observations ls = map (\<lambda>l. PFloat (the (py_float (strip l)))) (filter nonblank ls)"

definition parse_error :: "int \<Rightarrow> string \<Rightarrow> pyerr" where
  "parse_error line_no text =
     ValueError (''Unable to parse line '' @ digits line_no @ '': '' @ [CHR 0x27] @ text @
                 [CHR 0x27])"

text \<open>The two computations of \<open>main\<close>, regression first, on the observations.\<close>

definition computation :: "pyval list \<Rightarrow> pyerr + (pyval \<times> pyval \<times> pyval)" where
  "computation ys =
     bindE (linear_regression (indices ys) ys) (\<lambda>(m, b).
       bindE (pearson_correlation (indices ys) ys) (\<lambda>r. Inr (m, b, r)))"

text \<open>
  A run succeeds when none of the failures happens: the argument count is right,
  \<open>parse_file\<close> raises nothing (the file is readable and every non-blank line is
  numeric), there is an observation, and neither computation raises.
\<close>

definition run_ok :: "string list \<Rightarrow> files \<Rightarrow> bool" where
  "run_ok argv fs =
     (length argv = 2 \<and>
      (case parse_file (argv ! 1) fs of
         Inl e \<Rightarrow> False
       | Inr ys \<Rightarrow> ys \<noteq> [] \<and> (case computation ys of Inl e \<Rightarrow> False | Inr res \<Rightarrow> True)))"

text \<open>The file of the worked example, and the double that an int converts to.\<close>

definition one_to_five :: "string list" where
  "one_to_five = [''1'' @ [CHR 0x0A], ''2'' @ [CHR 0x0A], ''3'' @ [CHR 0x0A],
                  ''4'' @ [CHR 0x0A], ''5'' @ [CHR 0x0A]]"

definition dbl :: "int \<Rightarrow> pyval" where
  "dbl i = (case float_of_int i of Inr d \<Rightarrow> PFloat d | Inl _ \<Rightarrow> PFloat NaN)"

text \<open>
  The steps of \<open>rnd\<close>, named: the exponent it settles on, the quotient at an exponent,
  whether the quotient is rounded up, and the double built from the rounded quotient.
\<close>

definition rnd_exp :: "int \<Rightarrow> int \<Rightarrow> int" where
  "rnd_exp p q =
     (let e0 = max (bitlen p - bitlen q - 53) (- 1074)
      in if 2 ^ 53 \<le> (p * pow2 (- e0)) div (q * pow2 e0) then e0 + 1 else e0)"

definition rnd_quot :: "int \<Rightarrow> int \<Rightarrow> int \<Rightarrow> int" where
  "rnd_quot p q e = (p * pow2 (- e)) div (q * pow2 e)"

definition rnd_fin :: "bool \<Rightarrow> int \<Rightarrow> int \<Rightarrow> double" where
  "rnd_fin s m' e =
     (if 971 < (if m' = 2 ^ 53 then e + 1 else e) then Inf s
      else Fin s (if m' = 2 ^ 53 then 2 ^ 52 else m') (if m' = 2 ^ 53 then e + 1 else e))"

definition rnd_up :: "int \<Rightarrow> int \<Rightarrow> int \<Rightarrow> bool" where
  "rnd_up p q e =
     (q * pow2 e < 2 * ((p * pow2 (- e)) mod (q * pow2 e)) \<or>
      (2 * ((p * pow2 (- e)) mod (q * pow2 e)) = q * pow2 e \<and> odd (rnd_quot p q e)))"

section \<open>Rounding gives doubles\<close>

lemma bitlen_nonneg: "0 \<le> bitlen n"
proof (induction n rule: bitlen.induct)
  case (1 n)
  then show ?case by (subst bitlen.simps) auto
qed

lemma bitlen_pos: "0 < n \<Longrightarrow> 0 < bitlen n"
  using bitlen_nonneg [of "n div 2"] by (subst bitlen.simps) simp

lemma bitlen_bounds:
  "0 < n \<Longrightarrow> 2 ^ nat (bitlen n - 1) \<le> n \<and> n < 2 ^ nat (bitlen n)"
proof (induction n rule: bitlen.induct)
  case (1 n)
  show ?case
  proof (cases "n = 1")
    case True
    then show ?thesis by (simp add: bitlen.simps)
  next
    case False
    with 1 have h: "0 < n div 2" by simp
    with 1 have ih: "2 ^ nat (bitlen (n div 2) - 1) \<le> n div 2" "n div 2 < 2 ^ nat (bitlen (n div 2))"
      by auto
    have b: "bitlen n = 1 + bitlen (n div 2)"
      using 1 by (subst bitlen.simps) simp
    have bp: "0 < bitlen (n div 2)" using h by (rule bitlen_pos)
    have e1: "nat (bitlen n - 1) = Suc (nat (bitlen (n div 2) - 1))"
      using b bp by simp
    have e2: "nat (bitlen n) = Suc (nat (bitlen (n div 2)))"
      using b bp by simp
    from ih show ?thesis unfolding e1 e2 by simp presburger
  qed
qed


lemma pow2_pos [simp]: "0 < pow2 k"
  by (simp add: pow2_def)

lemma pow2_nonneg [simp]: "0 \<le> pow2 k"
  by (simp add: pow2_def)

lemma pow2_nonpos: "k \<le> 0 \<Longrightarrow> pow2 k = 1"
  by (simp add: pow2_def)

lemma pow2_add: "0 \<le> a \<Longrightarrow> 0 \<le> b \<Longrightarrow> pow2 (a + b) = pow2 a * pow2 b"
  by (simp add: pow2_def nat_add_distrib power_add)

lemma pow2_Suc: "0 \<le> a \<Longrightarrow> pow2 (a + 1) = 2 * pow2 a"
  using pow2_add [of a 1] by (simp add: pow2_def)

lemma pow2_mono: "a \<le> b \<Longrightarrow> pow2 a \<le> pow2 b"
  by (simp add: pow2_def)

lemma pow2_shift:
  assumes "0 \<le> t" and "0 \<le> t + d"
  shows "pow2 t * pow2 d = pow2 (t + d) * pow2 (- d)"
proof (cases "0 \<le> d")
  case True
  then show ?thesis using assms by (simp add: pow2_add pow2_nonpos)
next
  case False
  then have "pow2 t = pow2 ((t + d) + (- d))" by simp
  also have "\<dots> = pow2 (t + d) * pow2 (- d)"
    using False assms by (intro pow2_add) auto
  finally show ?thesis using False by (simp add: pow2_nonpos)
qed

lemma div_ge: "0 < (b::int) \<Longrightarrow> k * b \<le> a \<Longrightarrow> k \<le> a div b"
  using zdiv_mono1 [of "k * b" a b] by simp

lemma div_ge_D: "0 < (b::int) \<Longrightarrow> k \<le> a div b \<Longrightarrow> k * b \<le> a"
proof -
  assume b: "0 < b" and k: "k \<le> a div b"
  have "k * b \<le> (a div b) * b" using b k by (simp add: mult_right_mono)
  also have "\<dots> \<le> a"
    using b div_mult_mod_eq [of a b] pos_mod_sign [of b a] by linarith
  finally show ?thesis .
qed

lemma div_lt: "0 < (b::int) \<Longrightarrow> a < k * b \<Longrightarrow> a div b < k"
  using div_ge_D [of b k a] by (meson not_le)

lemma div_lt_D: "0 < (b::int) \<Longrightarrow> a div b < k \<Longrightarrow> a < k * b"
  using div_ge [of b k a] by (meson not_le)


lemma rnd_alt:
  "rnd s p q =
     (if p = 0 then Fin s 0 (- 1074)
      else rnd_fin s (if rnd_up p q (rnd_exp p q) then rnd_quot p q (rnd_exp p q) + 1
                      else rnd_quot p q (rnd_exp p q)) (rnd_exp p q))"
  unfolding rnd_def rnd_exp_def rnd_quot_def rnd_fin_def rnd_up_def Let_def
  by (rule refl)

lemma quot_window:
  assumes p: "0 < p" and q: "0 < q"
  defines "d \<equiv> bitlen p - bitlen q - 53"
  shows "pow2 52 * (q * pow2 d) \<le> p * pow2 (- d)" and "p * pow2 (- d) < pow2 54 * (q * pow2 d)"
proof -
  note bp = bitlen_bounds [OF p] and bq = bitlen_bounds [OF q]
  have bpp: "0 < bitlen p" and bqp: "0 < bitlen q"
    using p q by (simp_all add: bitlen_pos)
  have P1: "pow2 (bitlen p - 1) \<le> p" and P2: "p < pow2 (bitlen p)"
    using bp by (simp_all add: pow2_def)
  have Q1: "pow2 (bitlen q - 1) \<le> q" and Q2: "q < pow2 (bitlen q)"
    using bq by (simp_all add: pow2_def)
  have "pow2 52 * (q * pow2 d) \<le> pow2 52 * (pow2 (bitlen q) * pow2 d)"
    using Q2 by (intro mult_left_mono mult_right_mono) (auto simp: less_imp_le)
  also have "\<dots> = (pow2 52 * pow2 (bitlen q)) * pow2 d"
    by (simp only: mult.assoc)
  also have "pow2 52 * pow2 (bitlen q) = pow2 (52 + bitlen q)"
    using bqp by (intro pow2_add [symmetric]) auto
  also have "pow2 (52 + bitlen q) * pow2 d = pow2 (52 + bitlen q + d) * pow2 (- d)"
    using bqp bpp by (intro pow2_shift) (auto simp: d_def)
  also have "52 + bitlen q + d = bitlen p - 1" by (simp add: d_def)
  also have "pow2 (bitlen p - 1) * pow2 (- d) \<le> p * pow2 (- d)"
    using P1 by (intro mult_right_mono) auto
  finally show "pow2 52 * (q * pow2 d) \<le> p * pow2 (- d)" .
  have "p * pow2 (- d) < pow2 (bitlen p) * pow2 (- d)"
    using P2 by (intro mult_strict_right_mono) auto
  also have "bitlen p = 53 + bitlen q + d" by (simp add: d_def)
  also have "pow2 (53 + bitlen q + d) * pow2 (- d) = pow2 (53 + bitlen q) * pow2 d"
    using bqp bpp by (intro pow2_shift [symmetric]) (auto simp: d_def)
  also have "53 + bitlen q = 54 + (bitlen q - 1)" by simp
  also have "pow2 (54 + (bitlen q - 1)) = pow2 54 * pow2 (bitlen q - 1)"
    using bqp by (intro pow2_add) auto
  also have "pow2 54 * pow2 (bitlen q - 1) * pow2 d = pow2 54 * (pow2 (bitlen q - 1) * pow2 d)"
    by (simp only: mult.assoc)
  also have "\<dots> \<le> pow2 54 * (q * pow2 d)"
    using Q1 by (intro mult_left_mono mult_right_mono) (auto simp: less_imp_le)
  finally show "p * pow2 (- d) < pow2 54 * (q * pow2 d)" .
qed


lemma pow2_consts:
  "pow2 52 = 2 ^ 52" "pow2 53 = 2 ^ 53" "pow2 54 = 2 ^ 54"
  by (simp_all add: pow2_def)

lemma rnd_exp_props:
  assumes p: "0 < p" and q: "0 < q"
  shows "- 1074 \<le> rnd_exp p q"
    and "rnd_quot p q (rnd_exp p q) < 2 ^ 53"
    and "2 ^ 52 \<le> rnd_quot p q (rnd_exp p q) \<or> rnd_exp p q = - 1074"
    and "rnd_exp p q \<le> max (bitlen p - bitlen q - 53) (- 1074) + 1"
proof -
  define d where "d = bitlen p - bitlen q - 53"
  define e0 where "e0 = max d (- 1074)"
  have W1: "2 ^ 52 * (q * pow2 d) \<le> p * pow2 (- d)"
    and W2: "p * pow2 (- d) < 2 ^ 54 * (q * pow2 d)"
    using quot_window [OF p q] by (simp_all only: d_def pow2_consts)
  have e: "rnd_exp p q = (if 2 ^ 53 \<le> rnd_quot p q e0 then e0 + 1 else e0)"
    by (simp add: rnd_exp_def rnd_quot_def e0_def d_def Let_def)
  have den: "0 < q * pow2 x" for x using q by simp
  have "- 1074 \<le> e0" by (simp add: e0_def)
  then show "- 1074 \<le> rnd_exp p q" by (simp add: e)
  have "rnd_exp p q \<le> e0 + 1" by (simp add: e)
  then show "rnd_exp p q \<le> max (bitlen p - bitlen q - 53) (- 1074) + 1"
    by (simp only: e0_def d_def)
  have main: "rnd_quot p q (rnd_exp p q) < 2 ^ 53
      \<and> (2 ^ 52 \<le> rnd_quot p q (rnd_exp p q) \<or> rnd_exp p q = - 1074)"
  proof (cases "- 1074 \<le> d")
    case True
    then have e0: "e0 = d" by (simp add: e0_def)
    show ?thesis
    proof (cases "2 ^ 53 \<le> rnd_quot p q d")
      case False
      then have "rnd_exp p q = d" by (simp add: e e0)
      moreover have "2 ^ 52 \<le> rnd_quot p q d"
        unfolding rnd_quot_def using W1 by (intro div_ge den)
      ultimately show ?thesis using False by simp
    next
      case big: True
      then have ex: "rnd_exp p q = d + 1" by (simp add: e e0)
      have B: "2 ^ 53 * (q * pow2 d) \<le> p * pow2 (- d)"
        using big unfolding rnd_quot_def by (intro div_ge_D den)
      have "2 ^ 52 * (q * pow2 (d + 1)) \<le> p * pow2 (- (d + 1))
          \<and> p * pow2 (- (d + 1)) < 2 ^ 53 * (q * pow2 (d + 1))"
      proof (cases "0 \<le> d")
        case True
        then have "pow2 (d + 1) = 2 * pow2 d" "pow2 (- d) = 1" "pow2 (- (d + 1)) = 1"
          by (simp_all add: pow2_Suc pow2_nonpos)
        with B W2 show ?thesis by simp
      next
        case False
        then have "pow2 (d + 1) = 1" "pow2 d = 1" by (simp_all add: pow2_nonpos)
        moreover have "pow2 (- d) = 2 * pow2 (- (d + 1))"
          using False pow2_Suc [of "- (d + 1)"] by simp
        ultimately show ?thesis using B W2 by simp
      qed
      then have "2 ^ 52 \<le> rnd_quot p q (d + 1)" "rnd_quot p q (d + 1) < 2 ^ 53"
        unfolding rnd_quot_def by (auto intro!: div_ge div_lt den)
      then show ?thesis by (simp add: ex)
    qed
  next
    case False
    then have e0: "e0 = - 1074" by (simp add: e0_def)
    from False have d1: "pow2 d = 1" by (simp add: pow2_nonpos)
    have "pow2 1075 \<le> pow2 (- d)" using False by (intro pow2_mono) simp
    moreover have "pow2 1075 = 2 * pow2 1074" using pow2_Suc [of 1074] by simp
    ultimately have "2 * pow2 1074 \<le> pow2 (- d)" by simp
    then have "p * (2 * pow2 1074) \<le> p * pow2 (- d)"
      using p by (intro mult_left_mono) auto
    with W2 d1 have "p * pow2 1074 < 2 ^ 53 * q" by simp
    then have "rnd_quot p q (- 1074) < 2 ^ 53"
      unfolding rnd_quot_def using q by (intro div_lt) (simp_all add: pow2_nonpos)
    then show ?thesis by (simp add: e e0)
  qed
  from main show "rnd_quot p q (rnd_exp p q) < 2 ^ 53" by simp
  from main show "2 ^ 52 \<le> rnd_quot p q (rnd_exp p q) \<or> rnd_exp p q = - 1074" by simp
qed


lemma pow2_ge1: "1 \<le> pow2 k"
  by (simp add: pow2_def)

lemma pos_mult_pow2: "0 < p \<Longrightarrow> 1 \<le> p * pow2 k"
  using mult_mono [of 1 p 1 "pow2 k"] pow2_ge1 [of k] by simp

lemma rnd_quot_nonneg: "0 \<le> p \<Longrightarrow> 0 < q \<Longrightarrow> 0 \<le> rnd_quot p q e"
  by (simp add: rnd_quot_def pos_imp_zdiv_nonneg_iff)

lemma rnd_valid:
  assumes "0 \<le> p" and "0 < q"
  shows "valid_double (rnd s p q)"
proof (cases "p = 0")
  case True
  then show ?thesis by (simp add: rnd_def valid_double_def)
next
  case False
  with assms have p: "0 < p" by simp
  note props = rnd_exp_props [OF p assms(2)]
  have "0 \<le> rnd_quot p q (rnd_exp p q)"
    using assms by (rule rnd_quot_nonneg)
  with props False show ?thesis
    by (auto simp: rnd_alt rnd_fin_def valid_double_def)
qed

lemma rnd_not_zero:
  assumes p: "0 < p" and q: "0 < q" and big: "q \<le> p * pow2 1074"
  shows "\<not> is_zero (rnd s p q)"
proof -
  note props = rnd_exp_props [OF p q]
  have "1 \<le> rnd_quot p q (rnd_exp p q)"
  proof (cases "rnd_exp p q = - 1074")
    case True
    have "1 \<le> (p * pow2 1074) div (q * pow2 (- 1074))"
      using q big by (intro div_ge) (simp_all add: pow2_nonpos)
    then show ?thesis by (simp add: True rnd_quot_def)
  next
    case False
    with props(3) show ?thesis by simp
  qed
  with p show ?thesis
    by (auto simp: rnd_alt rnd_fin_def is_zero_def)
qed

lemma rnd_sign: "rnd s p q = Inf s \<or> (\<exists>m e. rnd s p q = Fin s m e)"
  by (simp add: rnd_alt rnd_fin_def)

lemma bitlen_le:
  assumes "0 < n" and "n < 2 ^ k"
  shows "bitlen n \<le> int k"
proof -
  from bitlen_bounds [OF assms(1)] assms(2) have "(2::int) ^ nat (bitlen n - 1) < 2 ^ k"
    by linarith
  then have "nat (bitlen n - 1) < k"
    using power_less_imp_less_exp [of "2::int"] by simp
  then show ?thesis by simp
qed

lemma bitlen_1: "bitlen 1 = 1"
  by (simp add: bitlen.simps)

lemma rnd_int_finite:
  assumes p: "0 < p" and small: "p < 2 ^ 63"
  shows "\<exists>m e. rnd s p 1 = Fin s m e \<and> m \<noteq> 0"
proof -
  note props = rnd_exp_props [OF p, of 1]
  have "bitlen p \<le> 63" using bitlen_le [OF p small] by simp
  with props(4) have e: "rnd_exp p 1 \<le> 10" by (simp add: bitlen_1)
  have nz: "\<not> is_zero (rnd s p 1)"
    using p by (intro rnd_not_zero) (simp_all add: pos_mult_pow2)
  from e p have "\<exists>m e. rnd s p 1 = Fin s m e"
    by (simp add: rnd_alt rnd_fin_def)
  with nz show ?thesis by (auto simp: is_zero_def)
qed

lemma float_of_int_len:
  assumes "0 < n" and "n < 2 ^ 63"
  shows "\<exists>m e. float_of_int n = Inr (Fin False m e) \<and> m \<noteq> 0"
proof -
  from rnd_int_finite [OF assms, of False] obtain m e
    where "rnd False n 1 = Fin False m e" "m \<noteq> 0" by blast
  with assms(1) show ?thesis by (simp add: float_of_int_def)
qed

lemma to_float_int_nonzero:
  assumes "j \<noteq> 0" and "to_float (PInt j) = Inr y"
  shows "\<not> is_zero y"
proof -
  have "\<not> is_zero (rnd (j < 0) \<bar>j\<bar> 1)"
    using assms(1) by (intro rnd_not_zero) (simp_all add: pos_mult_pow2)
  with assms(2) show ?thesis
    by (auto simp: to_float_def float_of_int_def split: double.splits)
qed

section \<open>Parsing\<close>

lemma bindE_Inr [simp]: "bindE (Inr v) f = f v"
  by (simp add: bindE_def)

lemma bindE_Inl [simp]: "bindE (Inl e) f = Inl e"
  by (simp add: bindE_def)

lemma parse_lines_ok:
  "\<forall>l \<in> set ls. nonblank l \<longrightarrow> numeric l \<Longrightarrow>
   parse_lines n ls acc = Inr (acc @ observations ls)"
proof (induction ls arbitrary: n acc)
  case Nil
  then show ?case by (simp add: observations_def)
next
  case (Cons l ls)
  show ?case
  proof (cases "nonblank l")
    case True
    with Cons.prems obtain d where d: "py_float (strip l) = Some d"
      by (auto simp: numeric_def)
    from Cons.prems have "\<forall>l \<in> set ls. nonblank l \<longrightarrow> numeric l" by simp
    from Cons.IH [OF this] True d show ?thesis
      by (simp add: nonblank_def observations_def)
  next
    case False
    from Cons.prems have "\<forall>l \<in> set ls. nonblank l \<longrightarrow> numeric l" by simp
    from Cons.IH [OF this] False show ?thesis
      by (simp add: nonblank_def observations_def)
  qed
qed

lemma parse_lines_first_error:
  "\<forall>l \<in> set pre. nonblank l \<longrightarrow> numeric l \<Longrightarrow> nonblank bad \<Longrightarrow> \<not> numeric bad \<Longrightarrow>
   parse_lines n (pre @ bad # post) acc = Inl (parse_error (n + int (length pre)) (strip bad))"
proof (induction pre arbitrary: n acc)
  case Nil
  then show ?case by (simp add: nonblank_def numeric_def parse_error_def)
next
  case (Cons l pre)
  from Cons.prems have rest: "\<forall>l \<in> set pre. nonblank l \<longrightarrow> numeric l" by simp
  have step: "parse_lines (n + 1) (pre @ bad # post) acc' =
      Inl (parse_error (n + 1 + int (length pre)) (strip bad))" for acc'
    using Cons.IH [OF rest Cons.prems(2) Cons.prems(3)] .
  show ?case
  proof (cases "nonblank l")
    case True
    with Cons.prems obtain d where d: "py_float (strip l) = Some d"
      by (auto simp: numeric_def)
    with True step show ?thesis
      by (simp add: nonblank_def algebra_simps)
  next
    case False
    with step show ?thesis
      by (simp add: nonblank_def algebra_simps)
  qed
qed


section \<open>The shape of a run\<close>

lemma float_of_int_0: "float_of_int 0 = Inr (Fin False 0 (- 1074))"
  by (simp add: float_of_int_def rnd_def)

lemma parse_file_lines: "fs path = Inr ls \<Longrightarrow> parse_file path fs = parse_lines 1 ls []"
  by (simp add: parse_file_def)

lemma single_point_degenerate:
  "linear_regression [PInt 0] [PFloat d] =
     Inl (ValueError ''Cannot compute linear regression: denominator is zero'')"
  by (simp add: linear_regression_def py_sum_def py_add_def py_mul_def py_sq_def py_sub_def
      py_eq0_def to_float_def float_of_int_0)

lemma py_truediv_float: "py_truediv a b = Inr v \<Longrightarrow> \<exists>d. v = PFloat d"
  by (auto simp: py_truediv_def bindE_def split: pyval.splits sum.splits if_splits double.splits)

lemma regression_floats:
  "linear_regression x y = Inr (m, b) \<Longrightarrow> (\<exists>d. m = PFloat d) \<and> (\<exists>d. b = PFloat d)"
  unfolding linear_regression_def Let_def
  by (auto simp: bindE_def split: sum.splits if_splits dest: py_truediv_float)

lemma correlation_float:
  "pearson_correlation x y = Inr r \<Longrightarrow> \<exists>d. r = PFloat d"
  unfolding pearson_correlation_def Let_def
  by (auto simp: bindE_def split: sum.splits if_splits dest: py_truediv_float)


lemma main_two_args:
  "main [prog, path] fs =
     (case parse_file path fs of
        Inl e \<Rightarrow> (print_err (''Error reading file: '' @ err_msg e) no_output, Inr 1)
      | Inr ys \<Rightarrow>
          if ys = [] then (print_err ''Error: No data found in file'' no_output, Inr 1)
          else
            (case computation ys of
               Inl (ValueError msg) \<Rightarrow>
                 (print_err (''Error computing statistics: '' @ msg) no_output, Inr 1)
             | Inl e \<Rightarrow> (no_output, Inl e)
             | Inr (m, b, r) \<Rightarrow>
                 (case bindE (py_fmt 6 m) (\<lambda>ms. bindE (py_fmt 6 b) (\<lambda>bs. Inr (ms, bs))) of
                    Inl e \<Rightarrow> (no_output, Inl e)
                  | Inr (ms, bs) \<Rightarrow>
                      (case py_fmt 10 r of
                         Inl e \<Rightarrow>
                           (print_out (''Linear Regression Line: y = '' @ ms @ ''x + '' @ bs)
                              no_output, Inl e)
                       | Inr rs \<Rightarrow>
                           (print_out (''Pearson Correlation Coefficient: '' @ rs)
                              (print_out (''Linear Regression Line: y = '' @ ms @ ''x + '' @ bs)
                                 no_output),
                            Inr 0)))))"
  by (simp add: main_def computation_def Let_def split: sum.splits)

lemma computation_floats:
  "computation ys = Inr (m, b, r) \<Longrightarrow> \<exists>dm db dr. m = PFloat dm \<and> b = PFloat db \<and> r = PFloat dr"
  unfolding computation_def
  by (auto simp: bindE_def split: sum.splits dest: regression_floats correlation_float)

lemma py_fmt_float [simp]: "py_fmt prec (PFloat d) = Inr (fmt_f prec d)"
  by (simp add: py_fmt_def to_float_def)

lemma program_success:
  assumes "parse_file path fs = Inr ys" and "ys \<noteq> []"
    and "computation ys = Inr (PFloat m, PFloat b, PFloat r)"
  shows "program [prog, path] fs =
     (\<lparr>stdout = [''Linear Regression Line: y = '' @ fmt_f 6 m @ ''x + '' @ fmt_f 6 b,
                 ''Pearson Correlation Coefficient: '' @ fmt_f 10 r],
       stderr = []\<rparr>, 0)"
  using assms
  by (simp add: program_def main_two_args print_out_def no_output_def)

lemma program_failure:
  assumes "\<not> run_ok argv fs"
  shows "\<exists>msg. program argv fs = (\<lparr>stdout = [], stderr = [msg]\<rparr>, 1)"
proof (cases "length argv = 2")
  case False
  then show ?thesis
    by (cases argv) (simp_all add: program_def main_def print_err_def no_output_def)
next
  case True
  then obtain prog path where argv: "argv = [prog, path]"
    by (cases argv; cases "tl argv") auto
  show ?thesis
  proof (cases "parse_file path fs")
    case (Inl e)
    then show ?thesis
      by (simp add: argv program_def main_two_args print_err_def no_output_def)
  next
    case (Inr ys)
    show ?thesis
    proof (cases "ys = []")
      case True
      with Inr show ?thesis
        by (simp add: argv program_def main_two_args print_err_def no_output_def)
    next
      case False
      with assms Inr obtain e where e: "computation ys = Inl e"
        by (auto simp: run_ok_def argv split: sum.splits)
      with Inr False show ?thesis
        by (cases e) (simp_all add: argv program_def main_two_args print_err_def no_output_def)
    qed
  qed
qed


section \<open>The parser's contract\<close>

lemma single_nonblank_ok:
  assumes "filter nonblank ls = [l]" and "numeric l"
  shows "\<forall>l' \<in> set ls. nonblank l' \<longrightarrow> numeric l'"
proof (intro ballI impI)
  fix l' assume "l' \<in> set ls" and "nonblank l'"
  then have "l' \<in> set (filter nonblank ls)" by simp
  with assms show "numeric l'" by simp
qed

text \<open>
  C3, as the code has it. When every non-blank line before \<open>bad\<close> is numeric and \<open>bad\<close>
  is a non-blank line that \<open>float\<close> rejects, \<open>parse_file\<close> raises the ValueError whose
  message carries the 1-based number of that line (blank lines counted) and the text of
  the line with the white space at both ends stripped; whatever follows the line is not
  read, no value is returned, and the program prints nothing on the standard output.
\<close>

theorem c3_first_parse_error:
  assumes "fs path = Inr (pre @ bad # post)"
    and "\<forall>l \<in> set pre. nonblank l \<longrightarrow> numeric l"
    and "nonblank bad" and "\<not> numeric bad"
  shows "parse_file path fs = Inl (parse_error (int (length pre) + 1) (strip bad))
    \<and> program [prog, path] fs =
        (\<lparr>stdout = [],
          stderr = [''Error reading file: '' @ ''Unable to parse line '' @
                    digits (int (length pre) + 1) @ '': '' @ [CHR 0x27] @ strip bad @
                    [CHR 0x27]]\<rparr>, 1)"
proof -
  have "parse_file path fs = Inl (parse_error (1 + int (length pre)) (strip bad))"
    using parse_lines_first_error [OF assms(2) assms(3) assms(4)] assms(1)
    by (simp add: parse_file_def)
  then show ?thesis
    by (simp add: program_def main_two_args print_err_def no_output_def parse_error_def
        err_msg_def add.commute)
qed

theorem c3_witness:
  "parse_file ''data.txt'' (\<lambda>p. Inr [''1'', '''', ''abc'', ''4'']) =
     Inl (ValueError (''Unable to parse line 3: '' @ [CHR 0x27] @ ''abc'' @ [CHR 0x27]))
   \<and> program [''linear_stats.py'', ''data.txt''] (\<lambda>p. Inr [''1'', '''', ''abc'', ''4'']) =
       (\<lparr>stdout = [],
         stderr = [''Error reading file: Unable to parse line 3: '' @ [CHR 0x27] @ ''abc'' @
                   [CHR 0x27]]\<rparr>, 1)"
proof -
  have h1: "\<forall>l \<in> set [''1'', '''']. nonblank l \<longrightarrow> numeric l" by code_simp
  have h2: "nonblank ''abc''" by code_simp
  have h3: "\<not> numeric ''abc''" by code_simp
  have d: "digits (int (length [''1'', '''']) + 1) = ''3''" by code_simp
  have s: "strip ''abc'' = ''abc''" by code_simp
  show ?thesis
    using c3_first_parse_error [of "\<lambda>p. Inr [''1'', '''', ''abc'', ''4'']" "''data.txt''"
        "[''1'', '''']" "''abc''" "[''4'']" "''linear_stats.py''", OF _ h1 h2 h3]
    by (simp only: d s parse_error_def append.simps)
qed

text \<open>
  The claim as worded fails where the line has white space around its text: the error
  for the line \<open>"  abc "\<close> carries \<open>abc\<close>, not the line as it stands in the file.
\<close>

theorem c3_raw_text_counterexample:
  "parse_file ''data.txt'' (\<lambda>p. Inr [''  abc '' @ [CHR 0x0A]]) = Inl (parse_error 1 ''abc'')
   \<and> parse_file ''data.txt'' (\<lambda>p. Inr [''  abc '' @ [CHR 0x0A]]) \<noteq>
       Inl (parse_error 1 (''  abc '' @ [CHR 0x0A]))"
  by code_simp

text \<open>
  C4. When every non-blank line of a file is numeric, parsing the file and parsing the
  same lines with the blank ones removed give the same observation sequence: one value
  per non-blank line, the value at position \<open>k\<close> being that of the \<open>k\<close>-th non-blank line,
  and the indices \<open>0, 1, ...\<close> up to their number; so the whole program prints the same.
\<close>

theorem c4_blank_lines_skipped:
  assumes "\<forall>l \<in> set ls. nonblank l \<longrightarrow> numeric l"
    and "fs path = Inr ls" and "fs' path = Inr (filter nonblank ls)"
  shows "parse_file path fs = Inr (observations ls)
    \<and> parse_file path fs' = Inr (observations ls)
    \<and> observations ls =
        map (\<lambda>l. PFloat (the (py_float (strip l)))) (filter nonblank ls)
    \<and> indices (observations ls) =
        map (\<lambda>i. PInt (int i)) [0..<length (filter nonblank ls)]
    \<and> program [prog, path] fs = program [prog, path] fs'"
proof -
  have a: "parse_file path fs = Inr (observations ls)"
    using parse_lines_ok [OF assms(1), of 1 "[]"] assms(2) by (simp add: parse_file_def)
  have "\<forall>l \<in> set (filter nonblank ls). nonblank l \<longrightarrow> numeric l"
    using assms(1) by simp
  from parse_lines_ok [OF this, of 1 "[]"] assms(3)
  have b: "parse_file path fs' = Inr (observations ls)"
    by (simp add: parse_file_def observations_def)
  have c: "program [prog, path] fs = program [prog, path] fs'"
    by (simp add: program_def main_two_args a b)
  show ?thesis
    using a b c by (simp add: observations_def indices_def)
qed

theorem c4_witness:
  "parse_file ''data.txt'' (\<lambda>p. Inr ['''', ''2'', '' '', ''4'']) =
     parse_file ''data.txt'' (\<lambda>p. Inr [''2'', ''4''])
   \<and> program [''linear_stats.py'', ''data.txt''] (\<lambda>p. Inr ['''', ''2'', '' '', ''4'']) =
       program [''linear_stats.py'', ''data.txt''] (\<lambda>p. Inr [''2'', ''4''])"
proof -
  have h: "\<forall>l \<in> set ['''', ''2'', '' '', ''4'']. nonblank l \<longrightarrow> numeric l" by code_simp
  have f: "filter nonblank ['''', ''2'', '' '', ''4''] = [''2'', ''4'']" by code_simp
  show ?thesis
    using c4_blank_lines_skipped [OF h, of "\<lambda>p. Inr ['''', ''2'', '' '', ''4'']" "''data.txt''"
        "\<lambda>p. Inr [''2'', ''4'']" "''linear_stats.py''"]
    by (simp add: f del: filter.simps)
qed

section \<open>A single observation\<close>

text \<open>
  C6. For a file with exactly one non-blank line, a numeric one, the observations are
  one value, the index sequence is \<open>[0]\<close>, \<open>linear_regression\<close> raises the ValueError of
  the zero denominator, and the program reports it on the error stream, prints no result
  line and exits with status 1.
\<close>

theorem c6_single_observation:
  assumes "fs path = Inr ls" and "filter nonblank ls = [l]" and "numeric l"
  shows "parse_file path fs = Inr (observations ls)
    \<and> length (observations ls) = 1
    \<and> indices (observations ls) = [PInt 0]
    \<and> linear_regression (indices (observations ls)) (observations ls) =
        Inl (ValueError ''Cannot compute linear regression: denominator is zero'')
    \<and> program [prog, path] fs =
        (\<lparr>stdout = [],
          stderr = [''Error computing statistics: Cannot compute linear regression: denominator is zero'']\<rparr>,
         1)"
proof -
  have obs: "observations ls = [PFloat (the (py_float (strip l)))]"
    by (simp add: observations_def assms(2))
  have p: "parse_file path fs = Inr (observations ls)"
    using parse_lines_ok [OF single_nonblank_ok [OF assms(2) assms(3)], of 1 "[]"] assms(1)
    by (simp add: parse_file_def)
  have i: "indices (observations ls) = [PInt 0]"
    by (simp add: obs indices_def)
  have r: "linear_regression (indices (observations ls)) (observations ls) =
      Inl (ValueError ''Cannot compute linear regression: denominator is zero'')"
    by (simp only: i) (simp add: obs single_point_degenerate)
  have "computation (observations ls) =
      Inl (ValueError ''Cannot compute linear regression: denominator is zero'')"
    by (simp add: computation_def r)
  then have "program [prog, path] fs =
      (\<lparr>stdout = [],
        stderr = [''Error computing statistics: Cannot compute linear regression: denominator is zero'']\<rparr>,
       1)"
    by (simp add: program_def main_two_args p obs print_err_def no_output_def)
  with p i r obs show ?thesis by simp
qed

theorem c6_witness:
  "program [''linear_stats.py'', ''data.txt''] (\<lambda>p. Inr ['''', ''7.5'', '' '']) =
     (\<lparr>stdout = [],
       stderr = [''Error computing statistics: Cannot compute linear regression: denominator is zero'']\<rparr>,
      1)"
proof -
  have f: "filter nonblank ['''', ''7.5'', '' ''] = [''7.5'']" by code_simp
  have n: "numeric ''7.5''" by code_simp
  show ?thesis
    using c6_single_observation [of "\<lambda>p. Inr ['''', ''7.5'', '' '']" "''data.txt''"
        "['''', ''7.5'', '' '']" "''7.5''" "''linear_stats.py''", OF _ f n]
    by simp
qed

section \<open>All or nothing\<close>

text \<open>
  C7. A run that succeeds prints exactly the two result lines, nothing on the error
  stream, and exits with status 0. Every other run (a wrong argument count, a file that
  cannot be read, a line that is not numeric, no observation, a zero denominator or any
  other exception of the computations) prints nothing on the standard output, one
  message on the error stream, and exits with status 1. No run prints one result line
  only.
\<close>

theorem c7_all_or_nothing:
  "if run_ok argv fs
   then \<exists>m b r. program argv fs =
          (\<lparr>stdout = [''Linear Regression Line: y = '' @ fmt_f 6 m @ ''x + '' @ fmt_f 6 b,
                      ''Pearson Correlation Coefficient: '' @ fmt_f 10 r],
            stderr = []\<rparr>, 0)
   else \<exists>msg. program argv fs = (\<lparr>stdout = [], stderr = [msg]\<rparr>, 1)"
proof (cases "run_ok argv fs")
  case False
  then show ?thesis using program_failure by simp
next
  case True
  then have len: "length argv = 2" by (simp add: run_ok_def)
  then obtain prog path where argv: "argv = [prog, path]"
    by (cases argv; cases "tl argv") auto
  from True obtain ys res where ys: "parse_file path fs = Inr ys" "ys \<noteq> []"
    and res: "computation ys = Inr res"
    by (auto simp: run_ok_def argv split: sum.splits)
  obtain m b r where "res = (m, b, r)" by (cases res) auto
  with res computation_floats obtain dm db dr
    where "computation ys = Inr (PFloat dm, PFloat db, PFloat dr)" by blast
  from program_success [OF ys this] True show ?thesis
    by (auto simp: argv)
qed

theorem c7_witness:
  "\<not> run_ok [''linear_stats.py''] (\<lambda>p. Inr [])
   \<and> (\<exists>msg. program [''linear_stats.py''] (\<lambda>p. Inr []) = (\<lparr>stdout = [], stderr = [msg]\<rparr>, 1))"
proof -
  have "\<not> run_ok [''linear_stats.py''] (\<lambda>p. Inr [])" by (simp add: run_ok_def)
  then show ?thesis
    using c7_all_or_nothing [of "[''linear_stats.py'']" "\<lambda>p. Inr []"] by simp
qed

section \<open>The worked example: the lines 1, 2, 3, 4, 5\<close>

lemma one_to_five_parse:
  "parse_file ''data.txt'' (\<lambda>p. Inr one_to_five) = Inr [dbl 1, dbl 2, dbl 3, dbl 4, dbl 5]"
  by code_simp

lemma one_to_five_regression:
  "linear_regression [PInt 0, PInt 1, PInt 2, PInt 3, PInt 4] [dbl 1, dbl 2, dbl 3, dbl 4, dbl 5]
     = Inr (dbl 1, dbl 1)"
  by code_simp

lemma one_to_five_correlation:
  "pearson_correlation [PInt 0, PInt 1, PInt 2, PInt 3, PInt 4] [dbl 1, dbl 2, dbl 3, dbl 4, dbl 5]
     = Inr (dbl 1)"
  by code_simp

lemma one_to_five_sums:
  "py_sum [dbl 1, dbl 2, dbl 3, dbl 4, dbl 5] = Inr (dbl 15)"
  "sum_gen (\<lambda>(x_i, y_i). py_mul x_i y_i) (PInt 0)
     (zip [PInt 0, PInt 1, PInt 2, PInt 3, PInt 4] [dbl 1, dbl 2, dbl 3, dbl 4, dbl 5]) = Inr (dbl 40)"
  "sum_gen py_sq (PInt 0) [dbl 1, dbl 2, dbl 3, dbl 4, dbl 5] = Inr (dbl 55)"
  "math_sqrt (dbl 2500) = Inr (dbl 50)"
  by code_simp+

lemma one_to_five_program:
  "program [''linear_stats.py'', ''data.txt''] (\<lambda>p. Inr one_to_five) =
     (\<lparr>stdout = [''Linear Regression Line: y = 1.000000x + 1.000000'',
                 ''Pearson Correlation Coefficient: 1.0000000000''],
       stderr = []\<rparr>, 0)"
  by code_simp

text \<open>
  C8. For the input whose lines are 1, 2, 3, 4, 5 the parsed observations are the doubles
  1.0 to 5.0; over the indices 0 to 4 the sums are the doubles 15, 40 and 55 and the
  root is the double 50, all without rounding; slope, intercept and correlation are each
  the double 1.0; the program prints slope 1.000000, intercept 1.000000 and correlation
  1.0000000000 and exits with 0.
\<close>

theorem c8_one_to_five_exact:
  "parse_file ''data.txt'' (\<lambda>p. Inr one_to_five) = Inr [dbl 1, dbl 2, dbl 3, dbl 4, dbl 5]
   \<and> py_sum [dbl 1, dbl 2, dbl 3, dbl 4, dbl 5] = Inr (dbl 15)
   \<and> sum_gen (\<lambda>(x_i, y_i). py_mul x_i y_i) (PInt 0)
        (zip [PInt 0, PInt 1, PInt 2, PInt 3, PInt 4] [dbl 1, dbl 2, dbl 3, dbl 4, dbl 5])
        = Inr (dbl 40)
   \<and> sum_gen py_sq (PInt 0) [dbl 1, dbl 2, dbl 3, dbl 4, dbl 5] = Inr (dbl 55)
   \<and> math_sqrt (dbl 2500) = Inr (dbl 50)
   \<and> linear_regression [PInt 0, PInt 1, PInt 2, PInt 3, PInt 4]
        [dbl 1, dbl 2, dbl 3, dbl 4, dbl 5] = Inr (dbl 1, dbl 1)
   \<and> pearson_correlation [PInt 0, PInt 1, PInt 2, PInt 3, PInt 4]
        [dbl 1, dbl 2, dbl 3, dbl 4, dbl 5] = Inr (dbl 1)
   \<and> dbl 1 = PFloat (Fin False (2 ^ 52) (- 52))
   \<and> program [''linear_stats.py'', ''data.txt''] (\<lambda>p. Inr one_to_five) =
       (\<lparr>stdout = [''Linear Regression Line: y = 1.000000x + 1.000000'',
                   ''Pearson Correlation Coefficient: 1.0000000000''],
         stderr = []\<rparr>, 0)"
proof -
  have "dbl 1 = PFloat (Fin False (2 ^ 52) (- 52))"
    by code_simp
  then show ?thesis
    using one_to_five_parse one_to_five_regression one_to_five_correlation
      one_to_five_sums one_to_five_program
    by blast
qed

end
